theory Spec2Isabelle
  imports Complex_Main
begin

section \<open>Common ground\<close>

text \<open>
  The scripts compute with Python floats. They are modelled as the real numbers they
  approximate: \<open>0.2\<close> is the real \<open>2/10\<close>, \<open>x ** y\<close> is exponentiation of reals.
  Rounding is outside the model.
\<close>

datatype py_error = OverflowError | ValueError

text \<open>Decimal rendering of a natural number, as \<open>f"{i}"\<close> does.\<close>

definition digit_char :: "nat \<Rightarrow> char" where
  "digit_char d = ''0123456789'' ! d"

function str_nat :: "nat \<Rightarrow> string" where
  "str_nat n = (if n < 10 then [digit_char n] else str_nat (n div 10) @ [digit_char (n mod 10)])"
  by pat_completeness auto
termination
  by (relation "measure id") auto

declare str_nat.simps [simp del]


section \<open>Step 6: the analytical chain estimate (entanglement\_chain\_1000.py)\<close>

text \<open>
  \<open>create_lightweight_chain\<close> creates the nodes \<open>Node_0 .. Node_{n-1}\<close> in batches of 100
  and adds them to a network. The model keeps the list of node names, in creation order.
\<close>

definition batch_starts :: "int \<Rightarrow> int list" where
  \<comment> \<open>\<open>range(0, num_nodes, batch_size)\<close> with \<open>batch_size = 100\<close>\<close>
  "batch_starts num_nodes = map (\<lambda>k. 100 * int k) [0 ..< nat ((num_nodes + 99) div 100)]"

definition create_lightweight_chain :: "int \<Rightarrow> real \<Rightarrow> string list" where
  "create_lightweight_chain num_nodes distance_km =
     concat (map (\<lambda>batch_start.
                    map (\<lambda>i. ''Node_'' @ str_nat (nat i))
                        [batch_start .. min (batch_start + 100) num_nodes - 1])
                 (batch_starts num_nodes))"

record chain_results =
  num_nodes :: int
  distance_per_link_km :: real
  total_distance_km :: real
  attenuation_per_link_db :: real
  transmission_per_link :: real
  propagation_delay_per_link_us :: real
  total_propagation_delay_ms :: real
  estimated_fidelity :: real
  network_diameter :: int
  total_links :: int

definition attenuation_db_per_km :: real where
  "attenuation_db_per_km = 2 / 10"

definition c_fibre :: real where
  \<comment> \<open>\<open>c = 2e8\<close>, speed of light in fibre (m/s)\<close>
  "c_fibre = 200000000"

definition initial_fidelity :: real where
  "initial_fidelity = 98 / 100"

definition chain_metrics :: "int \<Rightarrow> real \<Rightarrow> chain_results" where
  \<comment> \<open>the \<open>results\<close> dictionary, filled in the order of the source\<close>
  "chain_metrics n distance_km =
     \<lparr> num_nodes = n,
       distance_per_link_km = distance_km,
       total_distance_km = real_of_int (n - 1) * distance_km,
       attenuation_per_link_db = attenuation_db_per_km * distance_km,
       transmission_per_link = 10 powr ((- attenuation_db_per_km * distance_km) / 10),
       propagation_delay_per_link_us = (distance_km * 1000) / c_fibre * 1000000,
       total_propagation_delay_ms = (real_of_int (n - 1) * distance_km * 1000) / c_fibre * 1000,
       estimated_fidelity = power_int initial_fidelity (n - 1),
       network_diameter = n - 1,
       total_links = n - 1 \<rparr>"

text \<open>
  The function prints its report before it returns. One line of the report is
  \<open>int(np.ceil(np.log2(num_nodes)))\<close>: \<open>log2\<close> is \<open>-inf\<close> at 0 and \<open>nan\<close> below 0, and
  \<open>int\<close> raises \<open>OverflowError\<close> on the first and \<open>ValueError\<close> on the second, so the
  function returns its results only for a positive number of nodes. The argument \<open>shots\<close>
  appears in the opening message only.
\<close>

definition simulate_chain_progressive :: "int \<Rightarrow> int \<Rightarrow> real \<Rightarrow> py_error + chain_results" where
  "simulate_chain_progressive n shots distance_km =
     (let nodes = create_lightweight_chain n distance_km;
          results = chain_metrics n distance_km
      in if n = 0 then Inl OverflowError
         else if n < 0 then Inl ValueError
         else Inr results)"


section \<open>The loss channel\<close>

text \<open>
  Modelled from the spec: the delivery decision of a loss channel. The scripts hand the
  channel length and a \<open>FibreLossModel(p_loss_init, p_loss_length)\<close> to the simulation
  library, whose code is not part of the repository; the formula below is the one of the
  specification (section 4.2), with the initial loss given in dB.
\<close>

definition transmit_probability :: "real \<Rightarrow> real \<Rightarrow> real \<Rightarrow> real" where
  "transmit_probability loss_coefficient_db_per_km length_m init_loss_db =
     10 powr (- (loss_coefficient_db_per_km * length_m / 1000 + init_loss_db) / 10)"

datatype delivery = Delivered | Lost

text \<open>
  Modelled from the spec: a single pseudo-random draw \<open>u\<close> from \<open>[0, 1)\<close> decides the
  delivery; the qubit arrives when the draw falls below the transmission probability.
\<close>

definition transmit :: "real \<Rightarrow> real \<Rightarrow> real \<Rightarrow> real \<Rightarrow> delivery" where
  "transmit u loss_coefficient_db_per_km length_m init_loss_db =
     (if u < transmit_probability loss_coefficient_db_per_km length_m init_loss_db
      then Delivered else Lost)"


section \<open>The simulation library, as far as the scripts use it\<close>

text \<open>
  The scripts call a quantum-network simulation library for the qubits themselves. Its
  operations are parameters of the model: \<open>fresh\<close> is the simulator after
  \<open>ns.sim_reset()\<close>, \<open>create_bell\<close> is \<open>create_qubits(2)\<close> followed by
  \<open>assign_qstate(..., ketstates.b00)\<close>, \<open>operate_H\<close> and \<open>operate_CNOT\<close> are
  \<open>ns.qubits.operate\<close> with the operators \<open>H\<close> and \<open>CNOT\<close>, \<open>fidelity_b00\<close> is
  \<open>qubitapi.fidelity([qa, qb], ketstates.b00)\<close>, and \<open>discard\<close> is what the library does
  to a qubit that a channel loses.
\<close>

type_synonym qubit = nat

record 's qlib =
  fresh :: 's
  create_bell :: "'s \<Rightarrow> (qubit \<times> qubit) \<times> 's"
  operate_H :: "qubit \<Rightarrow> 's \<Rightarrow> 's"
  operate_CNOT :: "qubit \<Rightarrow> qubit \<Rightarrow> 's \<Rightarrow> 's"
  fidelity_b00 :: "qubit \<Rightarrow> qubit \<Rightarrow> 's \<Rightarrow> real"
  discard :: "qubit \<Rightarrow> 's \<Rightarrow> 's"

text \<open>
  One shot: the dictionary \<open>received\<close> (an entry with value \<open>None\<close> and a missing entry
  are both "no qubit"), the state of the library's qubits, and the qubits put on an
  output port and not yet resolved by \<open>ns.sim_run()\<close>, each with the number of its
  channel. Channels are numbered in the order in which the script creates them.
\<close>

record 's shot_state =
  received :: "string \<rightharpoonup> qubit"
  qstate :: 's
  in_flight :: "(nat \<times> qubit) list"

definition start_shot :: "'s qlib \<Rightarrow> 's shot_state" where
  "start_shot L = \<lparr> received = Map.empty, qstate = fresh L, in_flight = [] \<rparr>"

definition new_bell_pair :: "'s qlib \<Rightarrow> 's shot_state \<Rightarrow> (qubit \<times> qubit) \<times> 's shot_state" where
  "new_bell_pair L s =
     (case create_bell L (qstate s) of (qs, st) \<Rightarrow> (qs, s\<lparr>qstate := st\<rparr>))"

definition tx_output :: "nat \<Rightarrow> qubit \<Rightarrow> 's shot_state \<Rightarrow> 's shot_state" where
  "tx_output chan q s = s\<lparr>in_flight := in_flight s @ [(chan, q)]\<rparr>"

definition store :: "string \<Rightarrow> qubit \<Rightarrow> 's shot_state \<Rightarrow> 's shot_state" where
  \<comment> \<open>\<open>received[key] = q\<close>\<close>
  "store key q s = s\<lparr>received := (received s)(key \<mapsto> q)\<rparr>"

text \<open>
  \<open>ns.sim_run()\<close> resolves every transmission. \<open>delivered c\<close> says whether the loss draw
  of channel \<open>c\<close> lets the qubit through in this shot; \<open>handler c\<close> is the key under which
  the input handler bound to the receiving port of channel \<open>c\<close> stores the qubit. A lost
  qubit is discarded and no handler runs.
\<close>

definition deliver ::
  "'s qlib \<Rightarrow> (nat \<Rightarrow> string option) \<Rightarrow> (nat \<Rightarrow> bool) \<Rightarrow> nat \<times> qubit \<Rightarrow> 's shot_state \<Rightarrow> 's shot_state" where
  "deliver L handler delivered m s =
     (case m of (chan, q) \<Rightarrow>
        if delivered chan
        then (case handler chan of Some key \<Rightarrow> store key q s | None \<Rightarrow> s)
        else s\<lparr>qstate := discard L q (qstate s)\<rparr>)"

definition sim_run ::
  "'s qlib \<Rightarrow> (nat \<Rightarrow> string option) \<Rightarrow> (nat \<Rightarrow> bool) \<Rightarrow> 's shot_state \<Rightarrow> 's shot_state" where
  "sim_run L handler delivered s =
     fold (deliver L handler delivered) (in_flight s) (s\<lparr>in_flight := []\<rparr>)"


section \<open>Step 1: one Bell pair over ideal channels (bell\_pair\_basic.py)\<close>

text \<open>
  \<open>chan_A\<close> (number 0) leads to Alice, \<open>chan_B\<close> (number 1) to Bob. The channels carry no
  loss model, so both deliver.
\<close>

definition BellSource :: "'s qlib \<Rightarrow> nat \<Rightarrow> nat \<Rightarrow> 's shot_state \<Rightarrow> 's shot_state" where
  \<comment> \<open>the \<open>run\<close> method of the source protocol, sending on the channels \<open>c1\<close> and \<open>c2\<close>\<close>
  "BellSource L c1 c2 s =
     (case new_bell_pair L s of ((q1, q2), s') \<Rightarrow> tx_output c2 q2 (tx_output c1 q1 s'))"

definition handler_basic :: "nat \<Rightarrow> string option" where
  "handler_basic c = (if c = 0 then Some ''alice'' else if c = 1 then Some ''bob'' else None)"

datatype fidelity_error = QubitIsNone

definition bell_pair_basic :: "'s qlib \<Rightarrow> fidelity_error + real" where
  "bell_pair_basic L =
     (let s = sim_run L handler_basic (\<lambda>c. True) (BellSource L 0 1 (start_shot L))
      in case (received s ''alice'', received s ''bob'') of
           (Some qA, Some qB) \<Rightarrow> Inr (fidelity_b00 L qA qB (qstate s))
         | _ \<Rightarrow> Inl QubitIsNone)"


section \<open>Step 2: success against distance (bell\_pair\_loss.py)\<close>

definition fiber_loss_db_per_km :: real where
  "fiber_loss_db_per_km = 2 / 10"

definition channel_length :: "real \<Rightarrow> real" where
  \<comment> \<open>\<open>length=distance * 1000\<close>, for a distance of the sweep in km\<close>
  "channel_length distance = distance * 1000"

text \<open>
  Both channels of a shot get this length and the loss model
  \<open>FibreLossModel(p_loss_init=0.0, p_loss_length=fiber_loss_db_per_km)\<close>. The sweep starts
  at distance 0.
\<close>

definition bell_pair_loss_shot :: "'s qlib \<Rightarrow> (nat \<Rightarrow> bool) \<Rightarrow> bool" where
  \<comment> \<open>one pass of the inner loop: does the shot count as a success?\<close>
  "bell_pair_loss_shot L delivered =
     (let s = sim_run L handler_basic delivered (BellSource L 0 1 (start_shot L))
      in received s ''alice'' \<noteq> None \<and> received s ''bob'' \<noteq> None)"

fun count_successes :: "'s qlib \<Rightarrow> (nat \<Rightarrow> bool) list \<Rightarrow> nat \<Rightarrow> nat" where
  \<comment> \<open>the inner loop, one element of the list per shot; the accumulator is \<open>successes\<close>\<close>
  "count_successes L [] successes = successes"
| "count_successes L (d # ds) successes =
     count_successes L ds (if bell_pair_loss_shot L d then successes + 1 else successes)"

definition success_prob :: "'s qlib \<Rightarrow> (nat \<Rightarrow> bool) list \<Rightarrow> real" where
  \<comment> \<open>\<open>successes / shots\<close> for one distance, \<open>shots\<close> being the number of passes\<close>
  "success_prob L ds = real (count_successes L ds 0) / real (length ds)"


section \<open>Step 3: two links and a swap in the middle (bell\_swap\_two\_links.py)\<close>

text \<open>
  Channels, in creation order: 0 leads to Alice, 1 to the first input of the middle node,
  2 to its second input, 3 to Bob. The first source feeds channels 0 and 1, the second
  source channels 2 and 3.
\<close>

definition handler_swap :: "nat \<Rightarrow> string option" where
  "handler_swap c =
     (if c = 0 then Some ''alice''
      else if c = 1 then Some ''middle1''
      else if c = 2 then Some ''middle2''
      else if c = 3 then Some ''bob''
      else None)"

definition swap_shot :: "'s qlib \<Rightarrow> (nat \<Rightarrow> bool) \<Rightarrow> real option" where
  \<comment> \<open>one pass of the loop: the fidelity appended to \<open>success_fidelities\<close>, if any\<close>
  "swap_shot L delivered =
     (let s = sim_run L handler_swap delivered
                (BellSource L 2 3 (BellSource L 0 1 (start_shot L)))
      in case (received s ''alice'', received s ''middle1'',
               received s ''middle2'', received s ''bob'') of
           (Some qa, Some m1, Some m2, Some qb) \<Rightarrow>
             Some (fidelity_b00 L qa qb
                     (operate_CNOT L m1 m2 (operate_H L m1 (qstate s))))
         | _ \<Rightarrow> None)"

fun collect :: "('o \<Rightarrow> real option) \<Rightarrow> 'o list \<Rightarrow> real list \<Rightarrow> real list" where
  \<comment> \<open>the loop over the shots; the accumulator is \<open>success_fidelities\<close>\<close>
  "collect shot [] success_fidelities = success_fidelities"
| "collect shot (d # ds) success_fidelities =
     collect shot ds
       (case shot d of Some fid \<Rightarrow> success_fidelities @ [fid] | None \<Rightarrow> success_fidelities)"

definition np_mean :: "real list \<Rightarrow> real" where
  "np_mean xs = sum_list xs / real (length xs)"

definition bell_swap_two_links :: "'s qlib \<Rightarrow> (nat \<Rightarrow> bool) list \<Rightarrow> real list \<times> real option" where
  \<comment> \<open>the list of fidelities and the printed average (\<open>nan\<close>, here \<open>None\<close>, of an empty list)\<close>
  "bell_swap_two_links L ds =
     (let success_fidelities = collect (swap_shot L) ds []
      in (success_fidelities,
          if success_fidelities = [] then None else Some (np_mean success_fidelities)))"


section \<open>Step 4: the repeater chain (nv\_repeater\_chain.py)\<close>

text \<open>
  With \<open>n > 0\<close> repeaters the channels are, in creation order: 0 from Alice to \<open>R0\<close>,
  \<open>i + 1\<close> from \<open>R\<^sub>i\<close> to \<open>R\<^sub>i\<^sub>+\<^sub>1\<close>, and \<open>n\<close> from the last repeater to Bob. Every channel
  ends at the left input of a repeater or at Bob's input. With no repeater, channel 0
  leads from Alice to Bob. The output port \<open>qout_right\<close> of Alice is connected to
  channel 0, and that of repeater \<open>i\<close> to channel \<open>i + 1\<close>.
\<close>

definition make_handler :: "string \<Rightarrow> string \<Rightarrow> string" where
  \<comment> \<open>the key \<open>f"{node_name}_{port_name}"\<close> under which the handler stores\<close>
  "make_handler node_name port_name = node_name @ ''_'' @ port_name"

definition handler_chain :: "nat \<Rightarrow> nat \<Rightarrow> string option" where
  "handler_chain n c =
     (if 0 < n
      then (if c < n then Some (make_handler (''R'' @ str_nat c) ''qin_left'')
            else if c = n then Some (make_handler ''Bob'' ''qin'')
            else None)
      else (if c = 0 then Some (make_handler ''Bob'' ''qin'') else None))"

definition repeater_source :: "'s qlib \<Rightarrow> nat \<Rightarrow> 's shot_state \<Rightarrow> 's shot_state" where
  \<comment> \<open>repeater \<open>i\<close> creates a pair, sends one half to the right and keeps the other\<close>
  "repeater_source L i s =
     (case new_bell_pair L s of
        ((q_local, q_forward), s') \<Rightarrow>
          store (''R'' @ str_nat i @ ''_qin_right'') q_local (tx_output (i + 1) q_forward s'))"

definition nv_generate :: "'s qlib \<Rightarrow> nat \<Rightarrow> 's shot_state" where
  \<comment> \<open>everything the shot does before \<open>ns.sim_run()\<close>\<close>
  "nv_generate L n =
     (let s1 = (case new_bell_pair L (start_shot L) of
                  ((q_alice, q_to_chain), s') \<Rightarrow>
                    tx_output 0 q_to_chain (store ''Alice_qin'' q_alice s'));
          s2 = fold (repeater_source L) [0 ..< n - 1] s1
      in if 0 < n then repeater_source L (n - 1) s2 else s2)"

definition bsm :: "'s qlib \<Rightarrow> nat \<Rightarrow> 's shot_state \<Rightarrow> 's shot_state" where
  \<comment> \<open>the gates applied at repeater \<open>i\<close>, if both of its qubits are there\<close>
  "bsm L i s =
     (case (received s (''R'' @ str_nat i @ ''_qin_left''),
            received s (''R'' @ str_nat i @ ''_qin_right'')) of
        (Some q_left, Some q_right) \<Rightarrow>
          s\<lparr>qstate := operate_H L q_right (operate_CNOT L q_left q_right (qstate s))\<rparr>
      | _ \<Rightarrow> s)"

definition nv_arrived :: "'s qlib \<Rightarrow> nat \<Rightarrow> (nat \<Rightarrow> bool) \<Rightarrow> 's shot_state" where
  \<comment> \<open>the shot after \<open>ns.sim_run()\<close>\<close>
  "nv_arrived L n delivered = sim_run L (handler_chain n) delivered (nv_generate L n)"

definition nv_repeater_shot :: "'s qlib \<Rightarrow> nat \<Rightarrow> (nat \<Rightarrow> bool) \<Rightarrow> real option" where
  \<comment> \<open>one pass of the loop: the fidelity appended to \<open>success_fidelities\<close>, or "Qubits lost"\<close>
  "nv_repeater_shot L n delivered =
     (let s = fold (bsm L) [0 ..< n] (nv_arrived L n delivered)
      in case (received s ''Alice_qin'', received s ''Bob_qin'') of
           (Some q_alice, Some q_bob) \<Rightarrow> Some (fidelity_b00 L q_alice q_bob (qstate s))
         | _ \<Rightarrow> None)"

record chain_summary =
  average_fidelity :: real
  success_count :: nat
  total_shots :: nat
  success_percent :: real

definition nv_repeater_chain :: "'s qlib \<Rightarrow> nat \<Rightarrow> (nat \<Rightarrow> bool) list \<Rightarrow> chain_summary option" where
  \<comment> \<open>the printed results; nothing is reported when no shot succeeded\<close>
  "nv_repeater_chain L n ds =
     (let success_fidelities = collect (nv_repeater_shot L n) ds [];
          shots = length ds
      in if success_fidelities \<noteq> []
         then Some \<lparr> average_fidelity = np_mean success_fidelities,
                     success_count = length success_fidelities,
                     total_shots = shots,
                     success_percent = 100 * real (length success_fidelities) / real shots \<rparr>
         else None)"


section \<open>State vectors for the library's qubits\<close>

text \<open>
  The code of the library is not part of the repository. Its operations are given the
  meaning they have on state vectors, which is what the library computes in its default
  formalism: it keeps the joint state of the qubits as a vector of amplitudes. The gates
  of the scripts and the reference state are real, so real amplitudes suffice. Qubit \<open>q\<close>
  is position \<open>q\<close> of a basis label; qubits are numbered in the order of their creation.
  \<open>b00\<close> is the Bell state \<open>(|00> + |11>) / sqrt 2\<close>. The fidelity of two qubits against
  \<open>b00\<close> is read from their reduced state: \<open>overlap_sq\<close> is \<open><b00| rho |b00>\<close>, summed
  over the values of all other qubits, and the library returns its square root unless
  asked for the squared fidelity.
\<close>

record ket =
  nq :: nat
  amp :: "bool list \<Rightarrow> real"

definition b00 :: "bool \<Rightarrow> bool \<Rightarrow> real" where
  "b00 x y = (if x = y then 1 / sqrt 2 else 0)"

definition ket_fresh :: ket where
  "ket_fresh = \<lparr> nq = 0, amp = (\<lambda>bs. 1) \<rparr>"

definition ket_create_bell :: "ket \<Rightarrow> (qubit \<times> qubit) \<times> ket" where
  "ket_create_bell k =
     ((nq k, nq k + 1),
      \<lparr> nq = nq k + 2,
        amp = (\<lambda>bs. amp k (take (nq k) bs) * b00 (bs ! nq k) (bs ! (nq k + 1))) \<rparr>)"

definition ket_H :: "qubit \<Rightarrow> ket \<Rightarrow> ket" where
  "ket_H q k =
     k\<lparr>amp := (\<lambda>bs. (amp k (bs[q := False])
                     + (if bs ! q then - amp k (bs[q := True]) else amp k (bs[q := True])))
                    / sqrt 2)\<rparr>"

definition ket_CNOT :: "qubit \<Rightarrow> qubit \<Rightarrow> ket \<Rightarrow> ket" where
  "ket_CNOT c t k = k\<lparr>amp := (\<lambda>bs. amp k (bs[t := (bs ! t \<noteq> bs ! c)]))\<rparr>"

definition overlap_sq :: "qubit \<Rightarrow> qubit \<Rightarrow> ket \<Rightarrow> real" where
  "overlap_sq a b k =
     sum_list (map (\<lambda>bs. ((amp k bs + amp k (bs[a := True, b := True])) / sqrt 2)\<^sup>2)
                   (filter (\<lambda>bs. \<not> bs ! a \<and> \<not> bs ! b) (List.n_lists (nq k) [False, True])))"

definition ket_fidelity :: "qubit \<Rightarrow> qubit \<Rightarrow> ket \<Rightarrow> real" where
  "ket_fidelity a b k = sqrt (overlap_sq a b k)"

definition ket_lib :: "ket qlib" where
  \<comment> \<open>a lost qubit stays in the vector, unobserved; no fidelity below comes from a shot that loses one\<close>
  "ket_lib = \<lparr> fresh = ket_fresh, create_bell = ket_create_bell, operate_H = ket_H,
               operate_CNOT = ket_CNOT, fidelity_b00 = ket_fidelity, discard = (\<lambda>q k. k) \<rparr>"

definition norm_sq :: "ket \<Rightarrow> real" where
  \<comment> \<open>the squared length of the vector; 1 for a state\<close>
  "norm_sq k = sum_list (map (\<lambda>bs. (amp k bs)\<^sup>2) (List.n_lists (nq k) [False, True]))"


section \<open>Lemmas about one shot\<close>

lemma received_store: "received (store key q s) k = (if k = key then Some q else received s k)"
  by (simp add: store_def)

lemma received_tx_output [simp]: "received (tx_output c q s) = received s"
  by (simp add: tx_output_def)

lemma in_flight_store [simp]: "in_flight (store key q s) = in_flight s"
  by (simp add: store_def)

lemma in_flight_tx_output [simp]: "in_flight (tx_output c q s) = in_flight s @ [(c, q)]"
  by (simp add: tx_output_def)

lemma received_new_bell_pair [simp]: "received (snd (new_bell_pair L s)) = received s"
  by (simp add: new_bell_pair_def split_beta)

lemma in_flight_new_bell_pair [simp]: "in_flight (snd (new_bell_pair L s)) = in_flight s"
  by (simp add: new_bell_pair_def split_beta)

lemma repeater_source_received:
  "received (repeater_source L i s) k =
     (if k = ''R'' @ str_nat i @ ''_qin_right'' then Some (fst (fst (new_bell_pair L s))) else received s k)"
  by (simp add: repeater_source_def received_store split_beta)

lemma repeater_source_channels:
  "map fst (in_flight (repeater_source L i s)) = map fst (in_flight s) @ [i + 1]"
  by (simp add: repeater_source_def split_beta)

lemma fold_repeater_source_channels:
  "map fst (in_flight (fold (repeater_source L) [0 ..< m] s)) = map fst (in_flight s) @ [1 ..< Suc m]"
  by (induction m) (simp_all add: repeater_source_channels)

lemma fold_repeater_source_right:
  "i < m \<Longrightarrow> received (fold (repeater_source L) [0 ..< m] s) (''R'' @ str_nat i @ ''_qin_right'') \<noteq> None"
  by (induction m) (auto simp add: repeater_source_received less_Suc_eq)

lemma fold_repeater_source_other:
  "hd k \<noteq> CHR ''R'' \<Longrightarrow> received (fold (repeater_source L) [0 ..< m] s) k = received s k"
  by (induction m) (auto simp add: repeater_source_received)


lemma deliver_received:
  "received (deliver L h d (c, q) s) k = (if d c \<and> h c = Some k then Some q else received s k)"
  by (simp add: deliver_def received_store split: option.splits)

lemma fold_deliver_received:
  "received (fold (deliver L h d) ms s) k = None
     \<longleftrightarrow> received s k = None \<and> (\<forall>c \<in> set (map fst ms). \<not> (d c \<and> h c = Some k))"
proof (induction ms arbitrary: s)
  case Nil
  then show ?case by simp
next
  case (Cons m ms)
  obtain c q where m: "m = (c, q)" by (cases m)
  show ?case
    by (auto simp add: Cons.IH m deliver_received)
qed

lemma fold_deliver_untouched:
  assumes "\<And>c. h c \<noteq> Some k"
  shows "received (fold (deliver L h d) ms s) k = received s k"
proof (induction ms arbitrary: s)
  case Nil
  then show ?case by simp
next
  case (Cons m ms)
  obtain c q where m: "m = (c, q)" by (cases m)
  from assms show ?case
    by (simp add: Cons.IH m deliver_received)
qed

lemma sim_run_received:
  "received (sim_run L h d s) k = None
     \<longleftrightarrow> received s k = None \<and> (\<forall>c \<in> set (map fst (in_flight s)). \<not> (d c \<and> h c = Some k))"
  unfolding sim_run_def fold_deliver_received by simp

lemma sim_run_untouched:
  assumes "\<And>c. h c \<noteq> Some k"
  shows "received (sim_run L h d s) k = received s k"
  unfolding sim_run_def by (simp add: fold_deliver_untouched [OF assms])

lemma received_bsm [simp]: "received (bsm L i s) = received s"
  by (simp add: bsm_def split: option.splits)

lemma received_fold_bsm [simp]: "received (fold (bsm L) is s) = received s"
  by (induction "is" arbitrary: s) simp_all

lemma left_key_not_right_key:
  "''R'' @ str_nat c @ ''_qin_left'' \<noteq> ''R'' @ str_nat i @ ''_qin_right''"
proof
  assume "''R'' @ str_nat c @ ''_qin_left'' = ''R'' @ str_nat i @ ''_qin_right''"
  then have "rev (''R'' @ str_nat c @ ''_qin_left'') = rev (''R'' @ str_nat i @ ''_qin_right'')"
    by (rule arg_cong)
  then show False by simp
qed

lemma handler_chain_not_right:
  "handler_chain n c \<noteq> Some (''R'' @ str_nat i @ ''_qin_right'')"
  using left_key_not_right_key [of c i]
  by (simp add: handler_chain_def make_handler_def)

lemma handler_chain_not_alice: "handler_chain n c \<noteq> Some ''Alice_qin''"
  by (simp add: handler_chain_def make_handler_def)

lemma handler_chain_bob:
  "0 < n \<Longrightarrow> c \<le> n \<Longrightarrow> handler_chain n c = Some ''Bob_qin'' \<longleftrightarrow> c = n"
  by (simp add: handler_chain_def make_handler_def)

lemma nv_generate_channels: "map fst (in_flight (nv_generate L n)) = [0 ..< Suc n]"
proof (cases n)
  case 0
  then show ?thesis
    by (simp add: nv_generate_def Let_def split_beta start_shot_def)
next
  case (Suc m)
  have "[0 ..< Suc m] = 0 # [1 ..< Suc m]"
    by (simp add: upt_rec)
  then show ?thesis using Suc
    by (simp add: nv_generate_def Let_def split_beta start_shot_def
        repeater_source_channels fold_repeater_source_channels)
qed

lemma nv_generate_alice: "received (nv_generate L n) ''Alice_qin'' \<noteq> None"
  by (simp add: nv_generate_def Let_def split_beta repeater_source_received
      fold_repeater_source_other received_store)

lemma nv_generate_right:
  assumes "i < n"
  shows "received (nv_generate L n) (''R'' @ str_nat i @ ''_qin_right'') \<noteq> None"
proof (cases "i < n - 1")
  case True
  then have "received (fold (repeater_source L) [0 ..< n - 1] s) (''R'' @ str_nat i @ ''_qin_right'') \<noteq> None" for s
    by (rule fold_repeater_source_right)
  with assms show ?thesis
    by (simp add: nv_generate_def Let_def repeater_source_received)
next
  case False
  with assms have "i = n - 1" by simp
  with assms show ?thesis
    by (simp add: nv_generate_def Let_def repeater_source_received)
qed

lemma nv_generate_bob: "received (nv_generate L n) ''Bob_qin'' = None"
  by (simp add: nv_generate_def Let_def split_beta repeater_source_received
      fold_repeater_source_other received_store start_shot_def)

lemma str_nat_digits:
  "str_nat 0 = ''0''" "str_nat 1 = ''1''" "str_nat (Suc 0) = ''1''" "str_nat 2 = ''2''"
  by (simp_all add: str_nat.simps digit_char_def)

lemmas shot_defs = nv_repeater_shot_def nv_arrived_def nv_generate_def repeater_source_def bsm_def
  sim_run_def deliver_def handler_chain_def make_handler_def new_bell_pair_def start_shot_def
  tx_output_def store_def str_nat_digits

lemmas swap_defs = swap_shot_def sim_run_def deliver_def BellSource_def handler_swap_def
  new_bell_pair_def start_shot_def tx_output_def store_def

lemmas ket_defs = ket_lib_def ket_create_bell_def ket_fresh_def ket_H_def ket_CNOT_def
  ket_fidelity_def overlap_sq_def b00_def List.n_lists.simps

text \<open>The two-link script appends a fidelity exactly when all four qubits arrived.\<close>

lemma swap_shot_guard: "swap_shot L d \<noteq> None \<longleftrightarrow> d 0 \<and> d 1 \<and> d 2 \<and> d 3"
  by (simp add: swap_defs Let_def split_beta)

text \<open>Fully delivered shots, evaluated on state vectors.\<close>

lemma swap_shot_all_delivered: "swap_shot ket_lib (\<lambda>c. True) = Some (1 / 2)"
  by (simp add: swap_defs ket_defs eval_nat_numeral power2_eq_square real_sqrt_divide)

lemma nv_shot_no_repeater: "nv_repeater_shot ket_lib 0 (\<lambda>c. True) = Some 1"
  by (simp add: shot_defs ket_defs Let_def eval_nat_numeral)

lemma nv_shot_one_repeater: "nv_repeater_shot ket_lib 1 (\<lambda>c. True) = Some (1 / 2)"
  by (simp add: shot_defs ket_defs Let_def eval_nat_numeral upt_rec real_sqrt_divide power2_eq_square)

lemma nv_shot_two_repeaters: "nv_repeater_shot ket_lib 2 (\<lambda>c. True) = Some (1 / 2)"
  by (simp add: shot_defs ket_defs Let_def eval_nat_numeral upt_rec real_sqrt_divide power2_eq_square)

lemma nv_shot_all_lost: "nv_repeater_shot ket_lib 1 (\<lambda>c. False) = None"
  by (simp add: shot_defs Let_def split_beta eval_nat_numeral upt_rec)


section \<open>Lemmas about the aggregation and about fresh pairs\<close>

lemma collect_map_filter: "collect shot ds acc = acc @ List.map_filter shot ds"
  by (induction ds arbitrary: acc) (simp_all add: List.map_filter_simps split: option.splits)

lemma map_filter_conv: "List.map_filter f xs = map (the \<circ> f) (filter (\<lambda>x. f x \<noteq> None) xs)"
  by (simp add: List.map_filter_def)

lemma count_successes_filter:
  "count_successes L ds acc = acc + length (filter (bell_pair_loss_shot L) ds)"
  by (induction ds arbitrary: acc) simp_all

lemma sum_n_lists:
  "sum_list (map f (filter P (List.n_lists m [False, True])))
     = sum f {bs. length bs = m \<and> P bs}"
proof -
  have d: "distinct (filter P (List.n_lists m [False, True]))"
    by (simp add: distinct_n_lists)
  have s: "set (filter P (List.n_lists m [False, True])) = {bs. length bs = m \<and> P bs}"
    by (auto simp add: set_n_lists)
  show ?thesis
    using sum_list_distinct_conv_sum_set [OF d, of f] by (simp only: s)
qed

lemma half_half: "(a / sqrt 2 + a / sqrt 2) / sqrt 2 = (a::real)"
proof -
  have "(a / sqrt 2 + a / sqrt 2) / sqrt 2 = (2 * a) / (sqrt 2 * sqrt 2)"
    by (simp add: field_simps)
  also have "\<dots> = a" by simp
  finally show ?thesis .
qed

lemma finite_labels: "finite {bs :: bool list. length bs = m \<and> P bs}"
proof -
  have "{bs :: bool list. length bs = m \<and> P bs} \<subseteq> {bs. set bs \<subseteq> UNIV \<and> length bs = m}"
    by auto
  moreover have "finite {bs :: bool list. set bs \<subseteq> UNIV \<and> length bs = m}"
    by (rule finite_lists_length_eq) simp
  ultimately show ?thesis by (rule finite_subset)
qed

lemma sum_last_two:
  "sum (\<lambda>bs. f (take m bs)) {bs :: bool list. length bs = m + 2 \<and> bs ! m = x \<and> bs ! (m + 1) = y}
     = sum f {cs. length cs = m}"
proof (rule sum.reindex_bij_witness [where i = "\<lambda>cs. cs @ [x, y]" and j = "take m"])
  fix bs :: "bool list"
  assume "bs \<in> {bs. length bs = m + 2 \<and> bs ! m = x \<and> bs ! (m + 1) = y}"
  then have l: "length bs = m + 2" and p: "bs ! m = x" "bs ! (m + 1) = y" by auto
  show "take m bs @ [x, y] = bs"
  proof (rule nth_equalityI)
    show "length (take m bs @ [x, y]) = length bs" using l by simp
  next
    fix i assume "i < length (take m bs @ [x, y])"
    then have "i < m + 2" using l by simp
    then consider "i < m" | "i = m" | "i = m + 1" by linarith
    then show "(take m bs @ [x, y]) ! i = bs ! i"
      using l p by cases (simp_all add: nth_append)
  qed
  show "take m bs \<in> {cs. length cs = m}" using l by simp
  show "f (take m bs) = f (take m bs)" ..
next
  fix cs :: "bool list"
  assume "cs \<in> {cs. length cs = m}"
  then have l: "length cs = m" by simp
  show "take m (cs @ [x, y]) = cs" using l by simp
  show "cs @ [x, y] \<in> {bs. length bs = m + 2 \<and> bs ! m = x \<and> bs ! (m + 1) = y}"
    using l by (simp add: nth_append)
qed

lemma b00_sq:
  "(b00 False False)\<^sup>2 = 1 / 2" "(b00 True True)\<^sup>2 = 1 / 2"
  "(b00 False True)\<^sup>2 = 0" "(b00 True False)\<^sup>2 = 0"
  by (simp_all add: b00_def power_divide)

lemma norm_sq_create_bell: "norm_sq (snd (ket_create_bell k)) = norm_sq k"
proof -
  let ?n = "nq k"
  let ?A = "\<lambda>x y. {bs :: bool list. length bs = ?n + 2 \<and> bs ! ?n = x \<and> bs ! (?n + 1) = y}"
  let ?g = "\<lambda>bs. (amp (snd (ket_create_bell k)) bs)\<^sup>2"
  let ?N = "sum (\<lambda>cs. (amp k cs)\<^sup>2) {cs. length cs = ?n}"
  have part: "sum ?g (?A x y) = ?N * (b00 x y)\<^sup>2" for x y
  proof -
    have "sum ?g (?A x y) = sum (\<lambda>bs. (amp k (take ?n bs) * b00 x y)\<^sup>2) (?A x y)"
      by (rule sum.cong) (auto simp add: ket_create_bell_def)
    also have "\<dots> = sum (\<lambda>cs. (amp k cs * b00 x y)\<^sup>2) {cs. length cs = ?n}"
      by (rule sum_last_two [of "\<lambda>cs. (amp k cs * b00 x y)\<^sup>2"])
    also have "\<dots> = ?N * (b00 x y)\<^sup>2"
      by (simp add: power_mult_distrib sum_distrib_right)
    finally show ?thesis .
  qed
  have split: "{bs :: bool list. length bs = ?n + 2}
      = (?A False False \<union> ?A True True) \<union> (?A False True \<union> ?A True False)"
    by auto
  have "sum ?g {bs :: bool list. length bs = ?n + 2}
      = (sum ?g (?A False False) + sum ?g (?A True True))
        + (sum ?g (?A False True) + sum ?g (?A True False))"
    unfolding split
    by (subst sum.union_disjoint; (simp add: finite_labels)?; (blast)?)+
  also have "\<dots> = (?N * (1 / 2) + ?N * (1 / 2)) + (?N * 0 + ?N * 0)"
    by (simp only: part b00_sq)
  also have "\<dots> = ?N"
    by simp
  finally have "sum ?g {bs :: bool list. length bs = ?n + 2} = ?N" .
  moreover have "norm_sq (snd (ket_create_bell k)) = sum ?g {bs :: bool list. length bs = ?n + 2}"
    unfolding norm_sq_def
    using sum_n_lists [of ?g "\<lambda>bs. True" "?n + 2"]
    by (simp add: ket_create_bell_def)
  moreover have "norm_sq k = ?N"
    unfolding norm_sq_def
    using sum_n_lists [of "\<lambda>bs. (amp k bs)\<^sup>2" "\<lambda>bs. True" ?n]
    by simp
  ultimately show ?thesis by simp
qed

lemma fresh_pair_overlap:
  "overlap_sq (nq k) (nq k + 1) (snd (ket_create_bell k)) = norm_sq k"
proof -
  let ?n = "nq k"
  let ?k' = "snd (ket_create_bell k)"
  let ?A = "{bs :: bool list. length bs = ?n + 2 \<and> bs ! ?n = False \<and> bs ! (?n + 1) = False}"
  let ?f = "\<lambda>bs. ((amp ?k' bs + amp ?k' (bs[?n := True, ?n + 1 := True])) / sqrt 2)\<^sup>2"
  have tm: "?f bs = (amp k (take ?n bs))\<^sup>2" if "bs \<in> ?A" for bs
  proof -
    have "amp ?k' bs = amp k (take ?n bs) / sqrt 2"
      using that by (simp add: ket_create_bell_def b00_def)
    moreover have "amp ?k' (bs[?n := True, ?n + 1 := True]) = amp k (take ?n bs) / sqrt 2"
      using that by (simp add: ket_create_bell_def b00_def nth_list_update)
    ultimately have "(amp ?k' bs + amp ?k' (bs[?n := True, ?n + 1 := True])) / sqrt 2 = amp k (take ?n bs)"
      by (simp only: half_half)
    then show ?thesis by simp
  qed
  have "overlap_sq ?n (?n + 1) ?k' = sum ?f ?A"
    unfolding overlap_sq_def
    using sum_n_lists [of ?f "\<lambda>bs. \<not> bs ! ?n \<and> \<not> bs ! (?n + 1)" "?n + 2"]
    by (simp add: ket_create_bell_def)
  also have "\<dots> = sum (\<lambda>bs. (amp k (take ?n bs))\<^sup>2) ?A"
    by (rule sum.cong) (simp_all only: tm)
  also have "\<dots> = sum (\<lambda>cs. (amp k cs)\<^sup>2) {cs. length cs = ?n}"
    by (rule sum_last_two [of "\<lambda>cs. (amp k cs)\<^sup>2"])
  also have "\<dots> = norm_sq k"
    unfolding norm_sq_def using sum_n_lists [of "\<lambda>bs. (amp k bs)\<^sup>2" "\<lambda>bs. True" ?n]
    by simp
  finally show ?thesis .
qed

lemma norm_sq_fresh: "norm_sq ket_fresh = 1"
  by (simp add: norm_sq_def ket_fresh_def)


section \<open>Properties of the analytical estimate and of the loss formula\<close>

text \<open>
  C10. The result of \<open>simulate_chain_progressive\<close> does not depend on its argument
  \<open>shots\<close>: for every number of nodes and every distance, any two values of \<open>shots\<close>
  give the same outcome, be it the results or the error.
\<close>

theorem simulate_chain_progressive_ignores_shots:
  "simulate_chain_progressive n s1 distance_km = simulate_chain_progressive n s2 distance_km"
  by (simp add: simulate_chain_progressive_def)



text \<open>
  C3. The transmission probability per link of the analytical estimate is the loss formula
  of the channel, \<open>10 ^ (- (loss * length_m / 1000 + init_loss_db) / 10)\<close>, at zero initial
  loss; at zero initial loss that formula is \<open>10 ^ (- (loss * length_km) / 10)\<close>; and the
  channels of the distance sweep, with their loss coefficient and length, get the same
  probability as the analytical estimate at that distance.
\<close>

theorem transmission_per_link_is_loss_formula:
  "transmission_per_link (chain_metrics n distance_km)
     = transmit_probability attenuation_db_per_km (distance_km * 1000) 0
   \<and> transmit_probability coef (length_km * 1000) 0 = 10 powr (- (coef * length_km) / 10)
   \<and> transmit_probability fiber_loss_db_per_km (channel_length distance_km) 0
     = transmission_per_link (chain_metrics n distance_km)"
  by (simp add: chain_metrics_def transmit_probability_def fiber_loss_db_per_km_def
      attenuation_db_per_km_def channel_length_def)

text \<open>
  C5. Over a link of length 0 with no initial loss (0 dB) the transmission probability
  is 1, and every draw from \<open>[0, 1)\<close> delivers the qubit: the outcome \<open>Lost\<close> cannot
  occur. This is the first point of the distance sweep.
\<close>

theorem transmit_zero_length_delivers:
  assumes "0 \<le> u" and "u < 1"
  shows "transmit_probability coef 0 0 = 1
       \<and> transmit u coef 0 0 = Delivered
       \<and> transmit u fiber_loss_db_per_km (channel_length 0) 0 = Delivered"
  using assms by (simp add: transmit_def transmit_probability_def channel_length_def)

theorem transmit_zero_length_delivers_witness:
  "(0::real) \<le> 1 / 2 \<and> (1 / 2 :: real) < 1
   \<and> transmit_probability (2 / 10) 0 0 = 1 \<and> transmit (1 / 2) (2 / 10) 0 0 = Delivered"
  using transmit_zero_length_delivers [of "1 / 2" "2 / 10"] by simp


section \<open>Properties of the shots\<close>

text \<open>
  C9. In the repeater chain with at least one repeater, Alice's half and the right-hand
  qubit of every repeater are in \<open>received\<close> before \<open>ns.sim_run()\<close> and keep their entries
  whatever the channels do; and the shot yields a fidelity if and only if the last
  channel, from the last repeater to Bob, delivered.
\<close>

theorem repeater_chain_success_iff_last_channel:
  assumes "1 \<le> n"
  shows "received (nv_generate L n) ''Alice_qin'' \<noteq> None
       \<and> (\<forall>i<n. received (nv_generate L n) (''R'' @ str_nat i @ ''_qin_right'') \<noteq> None)
       \<and> received (nv_arrived L n delivered) ''Alice_qin'' = received (nv_generate L n) ''Alice_qin''
       \<and> (\<forall>i<n. received (nv_arrived L n delivered) (''R'' @ str_nat i @ ''_qin_right'')
                  = received (nv_generate L n) (''R'' @ str_nat i @ ''_qin_right''))
       \<and> (nv_repeater_shot L n delivered \<noteq> None \<longleftrightarrow> delivered n)"
proof -
  have bob: "received (nv_arrived L n delivered) ''Bob_qin'' = None \<longleftrightarrow> \<not> delivered n"
  proof -
    have "(\<forall>c \<in> set [0 ..< Suc n]. \<not> (delivered c \<and> handler_chain n c = Some ''Bob_qin'')) \<longleftrightarrow> \<not> delivered n"
      using assms by (auto simp add: handler_chain_bob less_Suc_eq_le)
    then show ?thesis
      by (simp only: nv_arrived_def sim_run_received nv_generate_channels nv_generate_bob) simp
  qed
  have alice: "received (nv_arrived L n delivered) ''Alice_qin'' = received (nv_generate L n) ''Alice_qin''"
    unfolding nv_arrived_def
    by (rule sim_run_untouched) (rule handler_chain_not_alice)
  have right: "received (nv_arrived L n delivered) (''R'' @ str_nat i @ ''_qin_right'')
                  = received (nv_generate L n) (''R'' @ str_nat i @ ''_qin_right'')" for i
    unfolding nv_arrived_def
    by (rule sim_run_untouched) (rule handler_chain_not_right)
  have shot: "nv_repeater_shot L n delivered \<noteq> None \<longleftrightarrow> delivered n"
    using bob alice nv_generate_alice [of L n]
    by (auto simp add: nv_repeater_shot_def Let_def split: option.splits)
  show ?thesis
    using nv_generate_alice nv_generate_right alice right shot by blast
qed

theorem repeater_chain_success_iff_last_channel_witness:
  "(1::nat) \<le> 2
   \<and> received (nv_generate ket_lib 2) ''Alice_qin'' \<noteq> None
   \<and> received (nv_generate ket_lib 2) ''R0_qin_right'' \<noteq> None
   \<and> received (nv_generate ket_lib 2) ''R1_qin_right'' \<noteq> None
   \<and> nv_repeater_shot ket_lib 2 (\<lambda>c. c = 2) \<noteq> None
   \<and> nv_repeater_shot ket_lib 2 (\<lambda>c. c \<noteq> 2) = None"
  using repeater_chain_success_iff_last_channel [of 2 ket_lib "\<lambda>c. c = 2"]
    repeater_chain_success_iff_last_channel [of 2 ket_lib "\<lambda>c. c \<noteq> 2"] str_nat_digits
  by (auto simp add: eval_nat_numeral less_Suc_eq)

text \<open>
  C2. A shot of the chain with two repeaters in which the channel from Alice to \<open>R0\<close>
  loses its qubit and the other two channels deliver: the left qubit of \<open>R0\<close> never
  arrives, yet the shot yields a fidelity. The two-link script yields none when a qubit
  of the middle node is missing.
\<close>

theorem repeater_chain_counts_shot_with_missing_swap_input:
  "received (nv_arrived L 2 (\<lambda>c. c \<noteq> 0)) ''R0_qin_left'' = None
   \<and> nv_repeater_shot L 2 (\<lambda>c. c \<noteq> 0) \<noteq> None
   \<and> swap_shot L (\<lambda>c. c \<noteq> 1) = None"
  by (simp add: shot_defs swap_defs Let_def split_beta eval_nat_numeral upt_rec)

text \<open>
  C4. When the repeater-chain script reports results, the average fidelity is the mean
  over the shots that yielded a fidelity, the lost shots being left out, while the number
  of shots in the success rate counts every shot; and the success probability of the
  distance sweep is the number of successful shots over the number of all shots.
\<close>

theorem lost_shots_leave_mean_but_count_as_shots:
  assumes "nv_repeater_chain L n ds = Some r"
  shows "average_fidelity r
           = sum_list (map (the \<circ> nv_repeater_shot L n) (filter (\<lambda>d. nv_repeater_shot L n d \<noteq> None) ds))
             / real (length (filter (\<lambda>d. nv_repeater_shot L n d \<noteq> None) ds))
       \<and> success_count r = length (filter (\<lambda>d. nv_repeater_shot L n d \<noteq> None) ds)
       \<and> total_shots r = length ds
       \<and> success_percent r = 100 * real (success_count r) / real (length ds)
       \<and> success_prob L ds = real (length (filter (bell_pair_loss_shot L) ds)) / real (length ds)"
  using assms
  by (auto simp add: nv_repeater_chain_def Let_def collect_map_filter map_filter_conv np_mean_def
      success_prob_def count_successes_filter split: if_splits)

theorem lost_shots_leave_mean_but_count_as_shots_witness:
  "nv_repeater_chain ket_lib 1 [\<lambda>c. True, \<lambda>c. False]
     = Some \<lparr> average_fidelity = 1 / 2, success_count = 1, total_shots = 2, success_percent = 50 \<rparr>
   \<and> length (filter (\<lambda>d. nv_repeater_shot ket_lib 1 d \<noteq> None) [\<lambda>c. True, \<lambda>c. False]) = 1"
proof -
  have t: "nv_repeater_shot ket_lib 1 (\<lambda>c. True) = Some (1 / 2)"
    by (rule nv_shot_one_repeater)
  have f: "nv_repeater_shot ket_lib 1 (\<lambda>c. False) = None"
    by (rule nv_shot_all_lost)
  have h: "nv_repeater_chain ket_lib 1 [\<lambda>c. True, \<lambda>c. False]
     = Some \<lparr> average_fidelity = 1 / 2, success_count = 1, total_shots = 2, success_percent = 50 \<rparr>"
    unfolding nv_repeater_chain_def Let_def collect.simps t f
    by (simp add: np_mean_def)
  from lost_shots_leave_mean_but_count_as_shots [OF h] h show ?thesis by simp
qed

text \<open>
  C6. A pair created in any state of the simulator (a vector of length 1) has fidelity 1
  against \<open>b00\<close>, and the script with the two ideal channels reports fidelity 1. The
  simulator starts in such a state and the creation of a pair leaves it in one; the
  scripts create all their pairs before they apply a gate.
\<close>

theorem fresh_pair_fidelity_one:
  assumes "norm_sq k = 1"
  shows "(case ket_create_bell k of ((q1, q2), k') \<Rightarrow> ket_fidelity q1 q2 k') = 1
       \<and> norm_sq (snd (ket_create_bell k)) = 1
       \<and> norm_sq ket_fresh = 1
       \<and> bell_pair_basic ket_lib = Inr 1"
proof -
  have "ket_fidelity (nq k) (nq k + 1) (snd (ket_create_bell k)) = 1"
    using fresh_pair_overlap [of k] assms by (simp add: ket_fidelity_def)
  then have "(case ket_create_bell k of ((q1, q2), k') \<Rightarrow> ket_fidelity q1 q2 k') = 1"
    by (simp add: ket_create_bell_def)
  moreover have "bell_pair_basic ket_lib = Inr 1"
    by (simp add: bell_pair_basic_def sim_run_def deliver_def BellSource_def new_bell_pair_def
        start_shot_def tx_output_def store_def handler_basic_def ket_defs eval_nat_numeral)
  ultimately show ?thesis
    using assms norm_sq_create_bell [of k] norm_sq_fresh by simp
qed

theorem fresh_pair_fidelity_one_witness:
  "norm_sq (snd (ket_create_bell ket_fresh)) = 1
   \<and> (case ket_create_bell (snd (ket_create_bell ket_fresh)) of
         ((q1, q2), k') \<Rightarrow> ket_fidelity q1 q2 k') = 1
   \<and> bell_pair_basic ket_lib = Inr 1"
proof -
  have h: "norm_sq (snd (ket_create_bell ket_fresh)) = 1"
    by (simp add: norm_sq_create_bell norm_sq_fresh)
  from fresh_pair_fidelity_one [OF h] h show ?thesis by simp
qed

text \<open>
  C1. Shots in which every channel delivers, all links ideal: after the gates at the
  middle node the fidelity of Alice's and Bob's qubits against \<open>b00\<close> is \<open>1/2\<close>, not 1.
  This holds for the two-link script (Hadamard, then CNOT) and for the chain with one or
  two repeaters (CNOT, then Hadamard). The gates act on the middle qubits only and nothing
  is measured, so Alice's and Bob's qubits stay uncorrelated.
\<close>

theorem swap_leaves_alice_bob_fidelity_half:
  "swap_shot ket_lib (\<lambda>c. True) = Some (1 / 2)
   \<and> nv_repeater_shot ket_lib 1 (\<lambda>c. True) = Some (1 / 2)
   \<and> nv_repeater_shot ket_lib 2 (\<lambda>c. True) = Some (1 / 2)"
  using swap_shot_all_delivered nv_shot_one_repeater nv_shot_two_repeaters by simp

end
